theory Spec2Isabelle
  imports Main
begin

section \<open>JavaScript values as received from the Reddit API\<close>

text \<open>
  The wrapper in \<^verbatim>\<open>lib/api.ts\<close> handles the parsed response bodies at type \<^verbatim>\<open>any\<close>.
  A value is therefore modelled as the JavaScript value it is at run time: what
  \<^verbatim>\<open>JSON.parse\<close> produces, plus \<^verbatim>\<open>undefined\<close>, which is what reading an absent property
  yields.  Numbers are modelled as integers (the counters, depths and time stamps the
  wrapper reads are integral); an object is the association list of its own properties,
  the first binding of a key being the property's value.
\<close>

datatype json =
    JNull
  | JUndefined
  | JBool bool
  | JNum int
  | JStr string
  | JArr "json list"
  | JObj "(string \<times> json) list"

text \<open>Every \<^verbatim>\<open>throw\<close> of the wrapper and every exception the runtime raises in it.\<close>

datatype error =
    MissingCredentials
  | AuthenticationFailed string
  | ApiError nat string
  | TypeError
  | SyntaxError
  | NetworkError

text \<open>Reading a property of \<^verbatim>\<open>null\<close> or \<^verbatim>\<open>undefined\<close> raises a \<^verbatim>\<open>TypeError\<close>.\<close>

fun nullish :: "json \<Rightarrow> bool" where
  "nullish JNull = True"
| "nullish JUndefined = True"
| "nullish _ = False"

text \<open>JavaScript truthiness, as tested by \<^verbatim>\<open>||\<close>, \<^verbatim>\<open>&&\<close> and \<^verbatim>\<open>if\<close>.\<close>

fun truthy :: "json \<Rightarrow> bool" where
  "truthy JNull = False"
| "truthy JUndefined = False"
| "truthy (JBool b) = b"
| "truthy (JNum n) = (n \<noteq> 0)"
| "truthy (JStr s) = (s \<noteq> [])"
| "truthy (JArr _) = True"
| "truthy (JObj _) = True"

text \<open>\<^verbatim>\<open>a || b\<close>\<close>

definition js_or :: "json \<Rightarrow> json \<Rightarrow> json" where
  "js_or a b = (if truthy a then a else b)"

text \<open>
  \<^verbatim>\<open>v.k\<close> for a value \<open>v\<close> that is neither \<^verbatim>\<open>null\<close> nor \<^verbatim>\<open>undefined\<close> (callers test
  \<open>nullish\<close> first and raise).  The property names the wrapper reads (\<^verbatim>\<open>data\<close>,
  \<^verbatim>\<open>children\<close>, \<^verbatim>\<open>kind\<close>, \<^verbatim>\<open>replies\<close> and the record fields) are not properties of
  strings, numbers, booleans or arrays, so only an object can answer.
\<close>

fun field :: "json \<Rightarrow> string \<Rightarrow> json" where
  "field (JObj kvs) k = (case map_of kvs k of None \<Rightarrow> JUndefined | Some v \<Rightarrow> v)"
| "field _ k = JUndefined"

text \<open>Decimal rendering of a number, as \<^verbatim>\<open>String(n)\<close> prints an integer below \<open>10^21\<close>.\<close>

definition digit :: "nat \<Rightarrow> char" where
  "digit d = ''0123456789'' ! (d mod 10)"

fun dec :: "nat \<Rightarrow> string" where
  "dec n = (if n < 10 then [digit n] else dec (n div 10) @ [digit n])"

definition num_str :: "int \<Rightarrow> string" where
  "num_str i = (if i < 0 then CHR ''-'' # dec (nat (- i)) else dec (nat i))"

fun join_comma :: "string list \<Rightarrow> string" where
  "join_comma [] = []"
| "join_comma [s] = s"
| "join_comma (s # t # ss) = s @ '','' @ join_comma (t # ss)"

text \<open>
  \<^verbatim>\<open>String(v)\<close>, which is what a template literal \<^verbatim>\<open>`${v}`\<close> inserts: an array prints its
  elements joined by commas (\<^verbatim>\<open>null\<close> and \<^verbatim>\<open>undefined\<close> elements as nothing), an object
  prints as \<^verbatim>\<open>[object Object]\<close>.
\<close>

fun js_toString :: "json \<Rightarrow> string" where
  "js_toString JNull = ''null''"
| "js_toString JUndefined = ''undefined''"
| "js_toString (JBool b) = (if b then ''true'' else ''false'')"
| "js_toString (JNum n) = num_str n"
| "js_toString (JStr s) = s"
| "js_toString (JArr xs) =
     join_comma (map (\<lambda>x. if nullish x then [] else js_toString x) xs)"
| "js_toString (JObj _) = ''[object Object]''"

text \<open>
  \<^verbatim>\<open>v[i]\<close> for a value that is neither \<^verbatim>\<open>null\<close> nor \<^verbatim>\<open>undefined\<close>: an array element,
  the property named by the decimal index of an object, a character of a string;
  \<^verbatim>\<open>undefined\<close> when there is none.
\<close>

fun js_index :: "json \<Rightarrow> nat \<Rightarrow> json" where
  "js_index (JArr xs) i = (if i < length xs then xs ! i else JUndefined)"
| "js_index (JObj kvs) i = field (JObj kvs) (dec i)"
| "js_index (JStr s) i = (if i < length s then JStr [s ! i] else JUndefined)"
| "js_index _ i = JUndefined"

text \<open>Running a list of computations in order; the first exception aborts the rest.\<close>

fun sequence_err :: "(error + 'a) list \<Rightarrow> error + 'a list" where
  "sequence_err [] = Inr []"
| "sequence_err (Inl e # _) = Inl e"
| "sequence_err (Inr x # rs) =
     (case sequence_err rs of Inl e \<Rightarrow> Inl e | Inr xs \<Rightarrow> Inr (x # xs))"

section \<open>Normalized records\<close>

text \<open>
  The interfaces \<^verbatim>\<open>Post\<close> and \<^verbatim>\<open>Comment\<close>.  Their TypeScript field types are not checked
  at run time: a field holds whatever the mapper put there, so it is a \<open>json\<close> value.
  In \<open>comment\<close> the optional field \<^verbatim>\<open>replies?\<close> is \<open>None\<close> when the property is absent.
\<close>

record post =
  post_id :: json
  title :: json
  selftext :: json
  author :: json
  subreddit :: json
  created_utc :: json
  url :: json
  permalink :: json
  upvotes :: json
  num_comments :: json
  score :: json
  over_18 :: json
  post_url :: json

datatype comment =
  Comment
    (comment_id: json)
    (comment_body: json)
    (comment_author: json)
    (comment_created_utc: json)
    (comment_upvotes: json)
    (comment_score: json)
    (comment_depth: nat)
    (comment_replies: "comment list option")

text \<open>The assignment \<^verbatim>\<open>comment.replies = rs\<close>.\<close>

fun set_replies :: "comment \<Rightarrow> comment list \<Rightarrow> comment" where
  "set_replies (Comment i b a t u s d _) rs = Comment i b a t u s d (Some rs)"

section \<open>Response mapping\<close>

text \<open>
  \<^verbatim>\<open>const d = raw.data || raw;\<close> raises when \<open>raw\<close> is \<^verbatim>\<open>null\<close> or \<^verbatim>\<open>undefined\<close>;
  afterwards \<open>d\<close> is a truthy \<^verbatim>\<open>raw.data\<close> or \<open>raw\<close> itself, so no later read raises.
\<close>

definition post_data :: "json \<Rightarrow> json" where
  "post_data raw = js_or (field raw ''data'') raw"

definition parsePost :: "json \<Rightarrow> error + post" where
  "parsePost raw =
     (if nullish raw then Inl TypeError
      else let d = post_data raw in
        Inr \<lparr> post_id = field d ''id'',
              title = js_or (field d ''title'') (JStr ''''),
              selftext = js_or (field d ''selftext'') (JStr ''''),
              author = js_or (field d ''author'') (JStr ''[deleted]''),
              subreddit = field d ''subreddit'',
              created_utc = field d ''created_utc'',
              url = js_or (field d ''url'') (JStr ''''),
              permalink = field d ''permalink'',
              upvotes = js_or (field d ''ups'') (JNum 0),
              num_comments = js_or (field d ''num_comments'') (JNum 0),
              score = js_or (field d ''score'') (JNum 0),
              over_18 = js_or (field d ''over_18'') (JBool False),
              post_url = JStr (''https://reddit.com'' @ js_toString (field d ''permalink'')) \<rparr>)"

text \<open>\<^verbatim>\<open>c.kind === "t1"\<close>: only comments, not "more".\<close>

definition is_t1 :: "json \<Rightarrow> bool" where
  "is_t1 c = (field c ''kind'' = JStr ''t1'')"

lemma size_field_le: "size (field j k) \<le> size j"
proof (cases j)
  case (JObj kvs)
  have "size (case map_of kvs k of None \<Rightarrow> JUndefined | Some v \<Rightarrow> v)
          \<le> size_list (size_prod (\<lambda>_. 0) size) kvs"
    by (induction kvs) (auto split: option.splits)
  with JObj show ?thesis by simp
qed simp_all

lemma size_elem_lt: "c \<in> set cs \<Longrightarrow> size c < size (JArr cs)"
  by (induction cs) auto

lemma size_child_lt:
  assumes "field (field (field (field raw ''data'') ''replies'') ''data'') ''children'' = JArr cs"
    and "c \<in> set cs"
  shows "size c < size raw"
proof -
  let ?d = "field raw ''data''"
  let ?r = "field ?d ''replies''"
  let ?l = "field ?r ''data''"
  have "size c < size (field ?l ''children'')"
    using assms size_elem_lt by simp
  also have "\<dots> \<le> size ?l" by (rule size_field_le)
  also have "\<dots> \<le> size ?r" by (rule size_field_le)
  also have "\<dots> \<le> size ?d" by (rule size_field_le)
  also have "\<dots> \<le> size raw" by (rule size_field_le)
  finally show ?thesis .
qed

text \<open>
  \<^verbatim>\<open>parseComment(raw, depth)\<close>.  The exceptions: \<^verbatim>\<open>raw.data\<close> on a \<open>nullish\<close> node,
  \<^verbatim>\<open>d.id\<close> on a \<open>nullish\<close> data object, \<^verbatim>\<open>.filter\<close> on a truthy \<^verbatim>\<open>children\<close> that is not an
  array, \<^verbatim>\<open>c.kind\<close> on a \<open>nullish\<close> child (the filter visits every child before any is
  mapped), and whatever a recursive call raises.
\<close>

function parseComment :: "json \<Rightarrow> nat \<Rightarrow> error + comment" where
  "parseComment raw depth =
     (if nullish raw then Inl TypeError
      else if nullish (field raw ''data'') then Inl TypeError
      else
        let d = field raw ''data'';
            comment = Comment (field d ''id'')
                        (js_or (field d ''body'') (JStr ''''))
                        (js_or (field d ''author'') (JStr ''[deleted]''))
                        (field d ''created_utc'')
                        (js_or (field d ''ups'') (JNum 0))
                        (js_or (field d ''score'') (JNum 0))
                        depth
                        None
        in
          if truthy (field d ''replies'')
             \<and> truthy (field (field d ''replies'') ''data'')
             \<and> truthy (field (field (field d ''replies'') ''data'') ''children'')
          then
            (case field (field (field d ''replies'') ''data'') ''children'' of
               JArr cs \<Rightarrow>
                 if list_ex nullish cs then Inl TypeError
                 else
                   (case sequence_err
                           (map (\<lambda>c. parseComment c (depth + 1)) (filter is_t1 cs)) of
                      Inl e \<Rightarrow> Inl e
                    | Inr rs \<Rightarrow> Inr (set_replies comment rs))
             | _ \<Rightarrow> Inl TypeError)
          else Inr comment)"
  by pat_completeness auto
termination
proof (relation "measure (\<lambda>(raw, depth). size raw)")
  show "wf (measure (\<lambda>(raw, depth). size raw))" by simp
next
  fix raw :: json and depth :: nat and x xa x6 z
  assume "x = field raw ''data''"
    and "field (field (field x ''replies'') ''data'') ''children'' = JArr x6"
    and "z \<in> set (filter is_t1 x6)"
  then show "((z, depth + 1), raw, depth) \<in> measure (\<lambda>(raw, depth). size raw)"
    using size_child_lt [of raw x6 z] by simp
qed

declare parseComment.simps [simp del]

section \<open>Token lifecycle, pacing and the API request\<close>

text \<open>
  The outside world as the wrapper meets it.  \<^verbatim>\<open>process.env\<close> is read on every call of
  \<^verbatim>\<open>getCredentials\<close>.  The two servers answer in the order they are asked: each pending
  reply says how long the \<^verbatim>\<open>fetch\<close> takes, and an empty queue makes the \<^verbatim>\<open>fetch\<close>
  reject.  The body of a successful token reply is read at its declared interface
  \<^verbatim>\<open>TokenResponse\<close> (\<open>None\<close>: the body is not JSON).  A timer fires no earlier than asked;
  \<open>timer_lags\<close> says by how much each \<^verbatim>\<open>setTimeout\<close> overshoots.
\<close>

record environment =
  REDDIT_CLIENT_ID :: "string option"
  REDDIT_CLIENT_SECRET :: "string option"
  REDDIT_USERNAME :: "string option"
  REDDIT_PASSWORD :: "string option"

record credentials =
  clientId :: string
  clientSecret :: string
  username :: string
  password :: string

record TokenResponse =
  access_token :: string
  token_type :: string
  expires_in :: int
  scope :: string

record auth_reply =
  auth_latency :: nat
  auth_ok :: bool
  auth_text :: string
  auth_json :: "TokenResponse option"

record api_reply =
  api_latency :: nat
  api_ok :: bool
  api_status :: nat
  api_text :: string
  api_json :: "json option"

text \<open>
  What leaves the process, stamped with \<^verbatim>\<open>Date.now()\<close> at the moment it starts: the
  password-grant \<^verbatim>\<open>POST\<close> to the authorization endpoint, the \<^verbatim>\<open>GET\<close> of a data endpoint
  with its bearer token, and the pacing delay.
\<close>

datatype event =
    AuthPost int credentials
  | ApiGet int string string
  | Sleep int nat

record world =
  accessToken :: "string option"
  tokenExpiry :: int
  now :: int
  auth_replies :: "auth_reply list"
  api_replies :: "api_reply list"
  timer_lags :: "nat list"
  trace :: "event list"

definition RATE_DELAY_MS :: nat where
  "RATE_DELAY_MS = 600"

text \<open>\<^verbatim>\<open>!v\<close> for an environment variable: unset or the empty string.\<close>

fun unset :: "string option \<Rightarrow> bool" where
  "unset None = True"
| "unset (Some s) = (s = [])"

definition getCredentials :: "environment \<Rightarrow> error + credentials" where
  "getCredentials env =
     (if unset (REDDIT_CLIENT_ID env) \<or> unset (REDDIT_CLIENT_SECRET env)
         \<or> unset (REDDIT_USERNAME env) \<or> unset (REDDIT_PASSWORD env)
      then Inl MissingCredentials
      else Inr \<lparr> clientId = the (REDDIT_CLIENT_ID env),
                 clientSecret = the (REDDIT_CLIENT_SECRET env),
                 username = the (REDDIT_USERNAME env),
                 password = the (REDDIT_PASSWORD env) \<rparr>)"

text \<open>
  The guard \<^verbatim>\<open>accessToken && Date.now() < tokenExpiry - 5 * 60 * 1000\<close>: the cached token
  when the guard holds.  \<^verbatim>\<open>null\<close> and the empty string are falsy.
\<close>

definition cached_token :: "world \<Rightarrow> string option" where
  "cached_token w =
     (case accessToken w of
        None \<Rightarrow> None
      | Some t \<Rightarrow>
          if t \<noteq> [] \<and> now w < tokenExpiry w - 5 * 60 * 1000 then Some t else None)"

definition getToken :: "environment \<Rightarrow> world \<Rightarrow> (error + string) \<times> world" where
  "getToken env w =
     (case cached_token w of
        Some t \<Rightarrow> (Inr t, w)
      | None \<Rightarrow>
          (case getCredentials env of
             Inl e \<Rightarrow> (Inl e, w)
           | Inr creds \<Rightarrow>
               (case auth_replies w of
                  [] \<Rightarrow> (Inl NetworkError, w\<lparr>trace := trace w @ [AuthPost (now w) creds]\<rparr>)
                | r # rs \<Rightarrow>
                    let w1 = w\<lparr> auth_replies := rs,
                                trace := trace w @ [AuthPost (now w) creds],
                                now := now w + int (auth_latency r) \<rparr>
                    in if \<not> auth_ok r then (Inl (AuthenticationFailed (auth_text r)), w1)
                       else
                         (case auth_json r of
                            None \<Rightarrow> (Inl SyntaxError, w1)
                          | Some data \<Rightarrow>
                              (Inr (access_token data),
                               w1\<lparr> accessToken := Some (access_token data),
                                   tokenExpiry := now w1 + expires_in data * 1000 \<rparr>)))))"

text \<open>\<^verbatim>\<open>await sleep(ms)\<close>\<close>

definition sleep :: "nat \<Rightarrow> world \<Rightarrow> world" where
  "sleep ms w =
     w\<lparr> trace := trace w @ [Sleep (now w) ms],
        now := now w + int ms + int (case timer_lags w of [] \<Rightarrow> 0 | l # _ \<Rightarrow> l),
        timer_lags := tl (timer_lags w) \<rparr>"

definition apiGet :: "environment \<Rightarrow> string \<Rightarrow> world \<Rightarrow> (error + json) \<times> world" where
  "apiGet env endpoint w =
     (case getToken env w of
        (Inl e, w1) \<Rightarrow> (Inl e, w1)
      | (Inr token, w1) \<Rightarrow>
          (case api_replies w1 of
             [] \<Rightarrow> (Inl NetworkError, w1\<lparr>trace := trace w1 @ [ApiGet (now w1) endpoint token]\<rparr>)
           | r # rs \<Rightarrow>
               let w2 = w1\<lparr> api_replies := rs,
                            trace := trace w1 @ [ApiGet (now w1) endpoint token],
                            now := now w1 + int (api_latency r) \<rparr>
               in if \<not> api_ok r then (Inl (ApiError (api_status r) (api_text r)), w2)
                  else
                    let w3 = sleep RATE_DELAY_MS w2
                    in (case api_json r of
                          None \<Rightarrow> (Inl SyntaxError, w3)
                        | Some j \<Rightarrow> (Inr j, w3))))"

section \<open>The thread operation\<close>

text \<open>
  The options of \<^verbatim>\<open>thread\<close>; \<open>None\<close> is an omitted option.  The sort order has the
  union type of the source.
\<close>

datatype comment_sort = confidence | top | new | controversial | old

fun sort_name :: "comment_sort \<Rightarrow> string" where
  "sort_name confidence = ''confidence''"
| "sort_name top = ''top''"
| "sort_name new = ''new''"
| "sort_name controversial = ''controversial''"
| "sort_name old = ''old''"

record thread_opts =
  opt_depth :: "int option"
  opt_limit :: "int option"
  opt_sort :: "comment_sort option"

text \<open>
  The query string \<^verbatim>\<open>URLSearchParams\<close> serializes: \<^verbatim>\<open>depth\<close> when given, \<^verbatim>\<open>limit\<close> when
  truthy, \<^verbatim>\<open>sort\<close> when given, then \<^verbatim>\<open>raw_json=1\<close>.
\<close>

definition thread_params :: "thread_opts \<Rightarrow> (string \<times> string) list" where
  "thread_params opts =
     (case opt_depth opts of None \<Rightarrow> [] | Some d \<Rightarrow> [(''depth'', num_str d)])
     @ (case opt_limit opts of None \<Rightarrow> [] | Some l \<Rightarrow> if l \<noteq> 0 then [(''limit'', num_str l)] else [])
     @ (case opt_sort opts of None \<Rightarrow> [] | Some s \<Rightarrow> [(''sort'', sort_name s)])
     @ [(''raw_json'', ''1'')]"

fun query_string :: "(string \<times> string) list \<Rightarrow> string" where
  "query_string [] = []"
| "query_string [(k, v)] = k @ ''='' @ v"
| "query_string ((k, v) # p # ps) = k @ ''='' @ v @ ''&'' @ query_string (p # ps)"

definition thread_endpoint :: "string \<Rightarrow> string \<Rightarrow> thread_opts \<Rightarrow> string" where
  "thread_endpoint sr postId opts =
     ''/r/'' @ sr @ ''/comments/'' @ postId @ ''?'' @ query_string (thread_params opts)"

text \<open>
  What \<^verbatim>\<open>thread\<close> does with the parsed response \<open>data\<close>: \<^verbatim>\<open>data[0]\<close> and \<^verbatim>\<open>data[1]\<close>,
  the post from \<^verbatim>\<open>postListing.data.children[0]\<close>, the comments from
  \<^verbatim>\<open>commentListing.data?.children || []\<close>.  Each read of a property of a \<open>nullish\<close>
  value raises, as does \<^verbatim>\<open>.filter\<close> on a value that is not an array.
\<close>

definition thread_unwrap :: "json \<Rightarrow> error + (post \<times> comment list)" where
  "thread_unwrap data =
     (if nullish data then Inl TypeError
      else
        let postListing = js_index data 0;
            commentListing = js_index data 1
        in
          if nullish postListing then Inl TypeError
          else if nullish (field postListing ''data'') then Inl TypeError
          else if nullish (field (field postListing ''data'') ''children'') then Inl TypeError
          else
            (case parsePost (js_index (field (field postListing ''data'') ''children'') 0) of
               Inl e \<Rightarrow> Inl e
             | Inr post \<Rightarrow>
                 if nullish commentListing then Inl TypeError
                 else
                   (case js_or (if nullish (field commentListing ''data'') then JUndefined
                                else field (field commentListing ''data'') ''children'')
                               (JArr []) of
                      JArr cs \<Rightarrow>
                        if list_ex nullish cs then Inl TypeError
                        else
                          (case sequence_err (map (\<lambda>c. parseComment c 0) (filter is_t1 cs)) of
                             Inl e \<Rightarrow> Inl e
                           | Inr comments \<Rightarrow> Inr (post, comments))
                    | _ \<Rightarrow> Inl TypeError)))"

definition thread ::
  "environment \<Rightarrow> string \<Rightarrow> string \<Rightarrow> thread_opts \<Rightarrow> world
     \<Rightarrow> (error + (post \<times> comment list)) \<times> world" where
  "thread env sr postId opts w =
     (case apiGet env (thread_endpoint sr postId opts) w of
        (Inl e, w1) \<Rightarrow> (Inl e, w1)
      | (Inr data, w1) \<Rightarrow> (thread_unwrap data, w1))"

section \<open>Engagement filter\<close>

text \<open>
  Reading numerals.  \<open>digit_val\<close> is the value of a digit character in bases up to 16;
  \<open>digits_val\<close> is the number a digit sequence denotes.
\<close>

definition digit_val :: "char \<Rightarrow> nat option" where
  "digit_val c =
     map_of (zip ''0123456789abcdef'' [0..<16] @ zip ''ABCDEF'' [10..<16]) c"

definition is_digit :: "nat \<Rightarrow> char \<Rightarrow> bool" where
  "is_digit radix c = (case digit_val c of None \<Rightarrow> False | Some d \<Rightarrow> d < radix)"

definition digits_val :: "nat \<Rightarrow> string \<Rightarrow> int" where
  "digits_val radix ds = foldl (\<lambda>a c. a * int radix + int (the (digit_val c))) 0 ds"

text \<open>
  White space (of the ASCII range): space, tab, line feed, vertical tab, form feed,
  carriage return.
\<close>

definition is_space :: "char \<Rightarrow> bool" where
  "is_space c = (c \<in> set [CHR '' '', CHR 0x09, CHR 0x0A, CHR 0x0B, CHR 0x0C, CHR 0x0D])"

fun strip_sign :: "string \<Rightarrow> int \<times> string" where
  "strip_sign (c # cs) =
     (if c = CHR ''-'' then (- 1, cs) else if c = CHR ''+'' then (1, cs) else (1, c # cs))"
| "strip_sign [] = (1, [])"

fun strip_hex :: "string \<Rightarrow> nat \<times> string" where
  "strip_hex (a # b # cs) =
     (if a = CHR ''0'' \<and> (b = CHR ''x'' \<or> b = CHR ''X'') then (16, cs) else (10, a # b # cs))"
| "strip_hex cs = (10, cs)"

text \<open>
  \<^verbatim>\<open>parseInt(s)\<close> without a radix: leading white space, an optional sign, an optional
  \<^verbatim>\<open>0x\<close>, then the longest run of digits; \<open>None\<close> is \<^verbatim>\<open>NaN\<close>.
\<close>

definition parseInt :: "string \<Rightarrow> int option" where
  "parseInt s =
     (let (sgn, r) = strip_sign (dropWhile is_space s);
          (radix, t) = strip_hex r;
          ds = takeWhile (is_digit radix) t
      in if ds = [] then None else Some (sgn * digits_val radix ds))"

fun strip_radix :: "string \<Rightarrow> nat \<times> string" where
  "strip_radix (a # b # cs) =
     (if a = CHR ''0'' \<and> (b = CHR ''x'' \<or> b = CHR ''X'') then (16, cs)
      else if a = CHR ''0'' \<and> (b = CHR ''o'' \<or> b = CHR ''O'') then (8, cs)
      else if a = CHR ''0'' \<and> (b = CHR ''b'' \<or> b = CHR ''B'') then (2, cs)
      else (10, a # b # cs))"
| "strip_radix cs = (10, cs)"

text \<open>
  \<^verbatim>\<open>Number(s)\<close> for a string, within the integer model: white space around the numeral is
  ignored, the empty numeral is 0, a decimal numeral may carry a sign, a hexadecimal,
  octal or binary one may not.  A string that spells no integer this way (also one
  spelling a fraction, an exponent or an infinity, which the integer model does not
  have) is \<^verbatim>\<open>NaN\<close> (\<open>None\<close>).
\<close>

definition str_to_number :: "string \<Rightarrow> int option" where
  "str_to_number s =
     (let t = rev (dropWhile is_space (rev (dropWhile is_space s)));
          (radix, h) = strip_radix t;
          (sgn, u) = strip_sign t
      in if t = [] then Some 0
         else if radix \<noteq> 10 then
           (if h \<noteq> [] \<and> list_all (is_digit radix) h then Some (digits_val radix h) else None)
         else if u \<noteq> [] \<and> list_all (is_digit 10) u then Some (sgn * digits_val 10 u)
         else None)"

text \<open>\<^verbatim>\<open>Number(v)\<close>, the conversion \<^verbatim>\<open><\<close> applies to an operand compared with a number.\<close>

fun to_number :: "json \<Rightarrow> int option" where
  "to_number (JNum n) = Some n"
| "to_number JNull = Some 0"
| "to_number JUndefined = None"
| "to_number (JBool b) = Some (if b then 1 else 0)"
| "to_number (JStr s) = str_to_number s"
| "to_number (JArr xs) = str_to_number (js_toString (JArr xs))"
| "to_number (JObj kvs) = str_to_number (js_toString (JObj kvs))"

text \<open>\<^verbatim>\<open>v < m\<close> for a number \<open>m\<close>; a comparison with \<^verbatim>\<open>NaN\<close> is false.\<close>

definition js_lt :: "json \<Rightarrow> int \<Rightarrow> bool" where
  "js_lt v m = (case to_number v of None \<Rightarrow> False | Some n \<Rightarrow> n < m)"

text \<open>
  The options of \<^verbatim>\<open>filterEngagement\<close>.  A threshold is \<open>None\<close> when it is \<^verbatim>\<open>undefined\<close>
  or \<^verbatim>\<open>NaN\<close>; both are falsy, and so is 0.
\<close>

record engagement_opts =
  minUpvotes :: "int option"
  minComments :: "int option"

text \<open>\<^verbatim>\<open>threshold && value < threshold\<close>\<close>

fun below :: "int option \<Rightarrow> json \<Rightarrow> bool" where
  "below None v = False"
| "below (Some m) v = (m \<noteq> 0 \<and> js_lt v m)"

definition filterEngagement :: "post list \<Rightarrow> engagement_opts \<Rightarrow> post list" where
  "filterEngagement posts opts =
     filter (\<lambda>p. if below (minUpvotes opts) (upvotes p) then False
                 else if below (minComments opts) (num_comments p) then False
                 else True) posts"

section \<open>The search command: options and filter\<close>

text \<open>\<^verbatim>\<open>args.findIndex(pred)\<close>; \<open>None\<close> is \<^verbatim>\<open>-1\<close>.\<close>

fun findIndex :: "('a \<Rightarrow> bool) \<Rightarrow> 'a list \<Rightarrow> nat option" where
  "findIndex P [] = None"
| "findIndex P (x # xs) =
     (if P x then Some 0 else (case findIndex P xs of None \<Rightarrow> None | Some i \<Rightarrow> Some (i + 1)))"

definition getOpt :: "string list \<Rightarrow> string \<Rightarrow> string option" where
  "getOpt args name =
     (case findIndex (\<lambda>a. a = ''--'' @ name) args of
        None \<Rightarrow> None
      | Some index \<Rightarrow> if index = length args - 1 then None else Some (args ! (index + 1)))"

definition getFlag :: "string list \<Rightarrow> string \<Rightarrow> bool" where
  "getFlag args name = (''--'' @ name \<in> set args)"

text \<open>\<^verbatim>\<open>const ttl = isQuick ? 60 * 60 * 1000 : 15 * 60 * 1000;\<close>\<close>

definition search_ttl :: "string list \<Rightarrow> int" where
  "search_ttl args = (if getFlag args ''quick'' then 60 * 60 * 1000 else 15 * 60 * 1000)"

text \<open>
  \<^verbatim>\<open>const minUpvotes = minUpvotesStr ? parseInt(minUpvotesStr) : undefined;\<close> with \<open>None\<close>
  for \<^verbatim>\<open>undefined\<close> and for \<^verbatim>\<open>NaN\<close>, which the test \<^verbatim>\<open>if (minUpvotes)\<close> treats alike.
\<close>

definition search_minUpvotes :: "string list \<Rightarrow> int option" where
  "search_minUpvotes args =
     (case getOpt args ''min-upvotes'' of
        None \<Rightarrow> None
      | Some minUpvotesStr \<Rightarrow> if minUpvotesStr = [] then None else parseInt minUpvotesStr)"

text \<open>The step "Apply filters" of \<^verbatim>\<open>cmdSearch\<close>.\<close>

definition search_apply_filters :: "string list \<Rightarrow> post list \<Rightarrow> post list" where
  "search_apply_filters args posts =
     (case search_minUpvotes args of
        None \<Rightarrow> posts
      | Some m \<Rightarrow>
          if m \<noteq> 0 then filterEngagement posts \<lparr>minUpvotes = Some m, minComments = None\<rparr>
          else posts)"

section \<open>Cache store\<close>

text \<open>
  Modelled from the spec: the cache module \<^verbatim>\<open>lib/cache.ts\<close> (its \<^verbatim>\<open>get\<close>, \<^verbatim>\<open>set\<close> and
  \<^verbatim>\<open>clear\<close>), which the command-line tool imports, is not among the sources.  One entry
  per key holds the payload and the time it was stored; \<open>get\<close> compares
  \<open>now - storedAt\<close> with the time to live given at the lookup, and an entry is invalid
  once \<open>now - storedAt > TTL\<close>; an expired or absent entry is "absent" (\<open>None\<close>);
  \<open>clear\<close> removes all entries and reports how many.
\<close>

type_synonym 'v cache_store = "(string \<times> 'v \<times> int) list"

definition cache_get :: "'v cache_store \<Rightarrow> string \<Rightarrow> int \<Rightarrow> int \<Rightarrow> 'v option" where
  "cache_get store key ttl now_ms =
     (case map_of store key of
        None \<Rightarrow> None
      | Some (payload, storedAt) \<Rightarrow> if now_ms - storedAt > ttl then None else Some payload)"

definition cache_set :: "'v cache_store \<Rightarrow> string \<Rightarrow> 'v \<Rightarrow> int \<Rightarrow> 'v cache_store" where
  "cache_set store key payload now_ms =
     (key, payload, now_ms) # filter (\<lambda>e. fst e \<noteq> key) store"

definition cache_clear :: "'v cache_store \<Rightarrow> nat \<times> 'v cache_store" where
  "cache_clear store = (length store, [])"

section \<open>Properties of traces and comment forests\<close>

text \<open>The times at which the data requests of a trace were issued.\<close>

fun api_times :: "event list \<Rightarrow> int list" where
  "api_times [] = []"
| "api_times (ApiGet t _ _ # es) = t # api_times es"
| "api_times (_ # es) = api_times es"

text \<open>Consecutive times are at least the pacing delay apart.\<close>

fun spaced :: "int list \<Rightarrow> bool" where
  "spaced (a # b # ts) = (a + int RATE_DELAY_MS \<le> b \<and> spaced (b # ts))"
| "spaced _ = True"

text \<open>
  A world is paced when its data requests so far are spaced and the clock is at least
  the pacing delay past the last of them: whatever request comes next keeps the spacing.
\<close>

definition paced :: "world \<Rightarrow> bool" where
  "paced w =
     (spaced (api_times (trace w))
      \<and> list_all (\<lambda>t. t + int RATE_DELAY_MS \<le> now w) (api_times (trace w)))"

text \<open>Every reply in the tree is one level deeper than the comment it replies to.\<close>

fun nested_by_one :: "comment \<Rightarrow> bool" where
  "nested_by_one (Comment i b a t u s d rs) =
     (case rs of
        None \<Rightarrow> True
      | Some cs \<Rightarrow> list_all (\<lambda>r. comment_depth r = d + 1 \<and> nested_by_one r) cs)"

text \<open>
  The test of the \<^verbatim>\<open>if\<close> in \<^verbatim>\<open>parseComment\<close>,
  \<^verbatim>\<open>d.replies && d.replies.data && d.replies.data.children\<close>, and the value of
  \<^verbatim>\<open>d.replies.data.children\<close> it guards.
\<close>

definition reply_children :: "json \<Rightarrow> json" where
  "reply_children raw =
     field (field (field (field raw ''data'') ''replies'') ''data'') ''children''"

definition has_replies :: "json \<Rightarrow> bool" where
  "has_replies raw =
     (truthy (field (field raw ''data'') ''replies'')
      \<and> truthy (field (field (field raw ''data'') ''replies'') ''data'')
      \<and> truthy (reply_children raw))"

text \<open>The depths of all comments of a tree, parents before their replies.\<close>

fun comment_depths :: "comment \<Rightarrow> nat list" where
  "comment_depths (Comment i b a t u s d rs) =
     d # (case rs of None \<Rightarrow> [] | Some cs \<Rightarrow> concat (map comment_depths cs))"

text \<open>The number of authorization requests in a trace.\<close>

fun auth_calls :: "event list \<Rightarrow> nat" where
  "auth_calls [] = 0"
| "auth_calls (AuthPost _ _ # es) = Suc (auth_calls es)"
| "auth_calls (_ # es) = auth_calls es"

section \<open>Example payloads\<close>

text \<open>
  A comment tree three levels deep as the comments endpoint sends it: \<open>ex_root\<close> has
  the reply \<open>ex_leaf\<close>, whose replies listing holds only the "load more" placeholder
  \<open>ex_more\<close>.  \<open>ex_plain\<close> is a comment without replies, for which the endpoint sends
  the empty string.
\<close>

definition ex_more :: json where
  "ex_more = JObj [(''kind'', JStr ''more''),
                   (''data'', JObj [(''count'', JNum 3),
                                    (''children'', JArr [JStr ''k9'', JStr ''k8''])])]"

definition ex_listing :: "json list \<Rightarrow> json" where
  "ex_listing cs =
     JObj [(''kind'', JStr ''Listing''), (''data'', JObj [(''children'', JArr cs)])]"

definition ex_leaf :: json where
  "ex_leaf = JObj [(''kind'', JStr ''t1''),
                   (''data'', JObj [(''id'', JStr ''c2''), (''body'', JStr ''second''),
                                    (''author'', JStr ''bob''),
                                    (''created_utc'', JNum 1707523300),
                                    (''ups'', JNum 7), (''score'', JNum 7),
                                    (''replies'', ex_listing [ex_more])])]"

definition ex_root :: json where
  "ex_root = JObj [(''kind'', JStr ''t1''),
                   (''data'', JObj [(''id'', JStr ''c1''), (''body'', JStr ''first''),
                                    (''author'', JStr ''alice''),
                                    (''created_utc'', JNum 1707523200),
                                    (''ups'', JNum 50), (''score'', JNum 50),
                                    (''replies'', ex_listing [ex_leaf])])]"

definition ex_plain :: json where
  "ex_plain = JObj [(''kind'', JStr ''t1''),
                    (''data'', JObj [(''id'', JStr ''c3''), (''body'', JStr ''third''),
                                     (''replies'', JStr '''')])]"

text \<open>A post as a listing wraps it.\<close>

definition ex_post :: json where
  "ex_post = JObj [(''kind'', JStr ''t3''),
                   (''data'', JObj [(''id'', JStr ''abc''), (''title'', JStr ''Hello''),
                                    (''subreddit'', JStr ''test''), (''ups'', JNum 0),
                                    (''permalink'', JStr ''/r/test/comments/abc/hello/'')])]"

text \<open>
  A fresh process (no token yet) with credentials set, about to fetch a thread: the
  token endpoint will grant \<^verbatim>\<open>tok1\<close> for an hour, the comments endpoint will answer with
  one post and three children of the comment listing, one of them a placeholder.
  \<open>ex_world_after\<close> is the world once \<^verbatim>\<open>thread\<close> has returned.
\<close>

definition ex_env :: environment where
  "ex_env = \<lparr> REDDIT_CLIENT_ID = Some ''client'', REDDIT_CLIENT_SECRET = Some ''secret'',
               REDDIT_USERNAME = Some ''alice'', REDDIT_PASSWORD = Some ''hunter2'' \<rparr>"

definition ex_token_reply :: auth_reply where
  "ex_token_reply =
     \<lparr> auth_latency = 120, auth_ok = True, auth_text = '''',
       auth_json = Some \<lparr> access_token = ''tok1'', token_type = ''bearer'',
                          expires_in = 3600, scope = ''*'' \<rparr> \<rparr>"

definition ex_thread_response :: json where
  "ex_thread_response = JArr [ex_listing [ex_post], ex_listing [ex_root, ex_more, ex_plain]]"

definition ex_world :: world where
  "ex_world =
     \<lparr> accessToken = None, tokenExpiry = 0, now = 1707523200000,
       auth_replies = [ex_token_reply],
       api_replies = [\<lparr> api_latency = 80, api_ok = True, api_status = 200, api_text = '''',
                        api_json = Some ex_thread_response \<rparr>],
       timer_lags = [4], trace = [] \<rparr>"

definition ex_opts :: thread_opts where
  "ex_opts = \<lparr> opt_depth = Some 5, opt_limit = Some 50, opt_sort = Some confidence \<rparr>"

definition ex_world_after :: world where
  "ex_world_after =
     \<lparr> accessToken = Some ''tok1'', tokenExpiry = 1707526800120, now = 1707523200804,
       auth_replies = [], api_replies = [], timer_lags = [],
       trace = [AuthPost 1707523200000
                  \<lparr> clientId = ''client'', clientSecret = ''secret'',
                    username = ''alice'', password = ''hunter2'' \<rparr>,
                ApiGet 1707523200120
                  ''/r/test/comments/abc?depth=5&limit=50&sort=confidence&raw_json=1'' ''tok1'',
                Sleep 1707523200200 600] \<rparr>"

text \<open>The fresh process once \<^verbatim>\<open>getToken\<close> has returned.\<close>

definition ex_world_token :: world where
  "ex_world_token =
     ex_world \<lparr> auth_replies := [],
                trace := [AuthPost 1707523200000
                            \<lparr> clientId = ''client'', clientSecret = ''secret'',
                              username = ''alice'', password = ''hunter2'' \<rparr>],
                now := 1707523200120,
                accessToken := Some ''tok1'',
                tokenExpiry := 1707526800120 \<rparr>"

text \<open>
  A fresh process whose first data request is answered with status 429 and whose second
  would succeed, and the world once the first \<^verbatim>\<open>apiGet\<close> has raised.
\<close>

definition ex_world_limited :: world where
  "ex_world_limited =
     \<lparr> accessToken = None, tokenExpiry = 0, now = 1707523200000,
       auth_replies = [ex_token_reply],
       api_replies = [\<lparr> api_latency = 80, api_ok = False, api_status = 429,
                        api_text = ''Too Many Requests'', api_json = None \<rparr>,
                      \<lparr> api_latency = 90, api_ok = True, api_status = 200, api_text = '''',
                        api_json = Some (JObj [(''kind'', JStr ''t2''),
                                               (''data'', JObj [(''name'', JStr ''bob'')])]) \<rparr>],
       timer_lags = [], trace = [] \<rparr>"

definition ex_world_limited_after :: world where
  "ex_world_limited_after =
     \<lparr> accessToken = Some ''tok1'', tokenExpiry = 1707526800120, now = 1707523200200,
       auth_replies = [],
       api_replies = [\<lparr> api_latency = 90, api_ok = True, api_status = 200, api_text = '''',
                        api_json = Some (JObj [(''kind'', JStr ''t2''),
                                               (''data'', JObj [(''name'', JStr ''bob'')])]) \<rparr>],
       timer_lags = [],
       trace = [AuthPost 1707523200000
                  \<lparr> clientId = ''client'', clientSecret = ''secret'',
                    username = ''alice'', password = ''hunter2'' \<rparr>,
                ApiGet 1707523200120 ''/user/alice/about'' ''tok1''] \<rparr>"

section \<open>Auxiliary facts\<close>

lemma sequence_err_map_Inr: "sequence_err (map Inr rs) = Inr rs"
  by (induction rs) auto

lemma sequence_err_Inr_D: "sequence_err ys = Inr rs \<Longrightarrow> ys = map Inr rs"
proof (induction ys arbitrary: rs rule: sequence_err.induct)
  case 1
  then show ?case by simp
next
  case (2 e uu)
  then show ?case by simp
next
  case (3 x ys)
  then show ?case by (auto split: sum.splits)
qed

lemma sequence_err_Inr_iff: "sequence_err ys = Inr rs \<longleftrightarrow> ys = map Inr rs"
  using sequence_err_Inr_D sequence_err_map_Inr by blast

lemma parseComment_no_replies:
  assumes "\<not> nullish raw" "\<not> nullish (field raw ''data'')" "\<not> has_replies raw"
  shows "\<exists>c. parseComment raw depth = Inr c \<and> comment_replies c = None
           \<and> comment_depth c = depth"
  using assms unfolding has_replies_def reply_children_def
  by (subst parseComment.simps) (auto simp: Let_def)

lemma parseComment_with_replies:
  assumes "parseComment raw depth = Inr c" "has_replies raw"
  shows "\<exists>cs rs. reply_children raw = JArr cs \<and> \<not> list_ex nullish cs
           \<and> map (\<lambda>x. parseComment x (depth + 1)) (filter is_t1 cs) = map Inr rs
           \<and> comment_replies c = Some rs \<and> comment_depth c = depth"
proof -
  from assms(2) have t: "truthy (field (field raw ''data'') ''replies'')"
    "truthy (field (field (field raw ''data'') ''replies'') ''data'')"
    "truthy (field (field (field (field raw ''data'') ''replies'') ''data'') ''children'')"
    by (simp_all add: has_replies_def reply_children_def)
  from assms(1) t show ?thesis
    unfolding reply_children_def
    by (subst (asm) parseComment.simps)
       (auto simp: Let_def sequence_err_Inr_iff split: if_splits json.splits sum.splits)
qed

section \<open>Post field defaults\<close>



section \<open>Comment trees\<close>

lemma parseComment_Inr_defined:
  assumes "parseComment raw depth = Inr c"
  shows "\<not> nullish raw \<and> \<not> nullish (field raw ''data'')"
  using assms by (subst (asm) parseComment.simps) (auto split: if_splits)

lemma nested_by_one_iff:
  "nested_by_one c \<longleftrightarrow>
     (case comment_replies c of
        None \<Rightarrow> True
      | Some cs \<Rightarrow> list_all (\<lambda>r. comment_depth r = comment_depth c + 1 \<and> nested_by_one r) cs)"
  by (cases c) (auto split: option.splits)

lemma map_eq_Inr_elem:
  assumes "map f xs = map Inr rs" "r \<in> set rs"
  shows "\<exists>x \<in> set xs. f x = Inr r"
proof -
  from assms(2) obtain i where i: "i < length rs" "rs ! i = r"
    by (auto simp: in_set_conv_nth)
  from assms(1) have len: "length xs = length rs"
    by (metis length_map)
  from assms(1) i len have "f (xs ! i) = Inr r"
    by (metis nth_map)
  with i len show ?thesis by (metis nth_mem)
qed

lemma parseComment_depth_nested:
  "parseComment raw depth = Inr c \<Longrightarrow> comment_depth c = depth \<and> nested_by_one c"
proof (induction raw depth arbitrary: c rule: parseComment.induct)
  case (1 raw depth)
  from "1.prems" have def: "\<not> nullish raw" "\<not> nullish (field raw ''data'')"
    using parseComment_Inr_defined by blast+
  show ?case
  proof (cases "has_replies raw")
    case False
    with def obtain c' where "parseComment raw depth = Inr c'" "comment_replies c' = None"
      "comment_depth c' = depth"
      using parseComment_no_replies by blast
    with "1.prems" show ?thesis by (simp add: nested_by_one_iff)
  next
    case True
    with "1.prems" obtain cs rs where
      cs: "reply_children raw = JArr cs" "\<not> list_ex nullish cs"
      and rs: "map (\<lambda>x. parseComment x (depth + 1)) (filter is_t1 cs) = map Inr rs"
      and c: "comment_replies c = Some rs" "comment_depth c = depth"
      using parseComment_with_replies by blast
    have "comment_depth r = depth + 1 \<and> nested_by_one r" if "r \<in> set rs" for r
    proof -
      from map_eq_Inr_elem [OF rs that] obtain x
        where x: "x \<in> set (filter is_t1 cs)" "parseComment x (depth + 1) = Inr r"
        by blast
      from True cs(1) have g: "truthy (field (field raw ''data'') ''replies'') \<and>
         truthy (field (field (field raw ''data'') ''replies'') ''data'') \<and>
         truthy (field (field (field (field raw ''data'') ''replies'') ''data'') ''children'')"
        "field (field (field (field raw ''data'') ''replies'') ''data'') ''children'' = JArr cs"
        by (simp_all add: has_replies_def reply_children_def)
      show ?thesis
        by (rule "1.IH" [OF def refl refl g cs(2) x])
    qed
    with c show ?thesis
      by (simp add: nested_by_one_iff list_all_iff)
  qed
qed

text \<open>
  C2, as the claim states it, fails: the comment \<open>ex_leaf\<close> has a replies listing that
  holds only a "load more" placeholder, so none of its children qualifies, and its
  \<^verbatim>\<open>replies\<close> field is present and is the empty list.
\<close>

theorem parseComment_placeholder_only_counterexample:
  "reply_children ex_leaf = JArr [ex_more] \<and> filter is_t1 [ex_more] = []
   \<and> parseComment ex_leaf 0 =
       Inr (Comment (JStr ''c2'') (JStr ''second'') (JStr ''bob'') (JNum 1707523300)
              (JNum 7) (JNum 7) 0 (Some []))"
  by code_simp

text \<open>
  C2, amended.  A comment node whose \<^verbatim>\<open>data.replies\<close> is absent or falsy, or is not a
  listing with a truthy \<^verbatim>\<open>data.children\<close>, is mapped to a comment with no \<^verbatim>\<open>replies\<close>
  field at all.  A node whose replies listing exists is mapped to a comment whose
  \<^verbatim>\<open>replies\<close> field is present and has one entry for each child of kind \<^verbatim>\<open>t1\<close>: it is
  the empty list when the listing holds only placeholders.
\<close>

theorem parseComment_replies_field:
  "(\<not> nullish raw \<and> \<not> nullish (field raw ''data'') \<and> \<not> has_replies raw
      \<longrightarrow> (\<exists>c. parseComment raw depth = Inr c \<and> comment_replies c = None))
   \<and> (has_replies raw \<and> parseComment raw depth = Inr c
      \<longrightarrow> (\<exists>cs rs. reply_children raw = JArr cs \<and> comment_replies c = Some rs
                   \<and> length rs = length (filter is_t1 cs)))"
proof (intro conjI impI)
  assume "\<not> nullish raw \<and> \<not> nullish (field raw ''data'') \<and> \<not> has_replies raw"
  then show "\<exists>c. parseComment raw depth = Inr c \<and> comment_replies c = None"
    using parseComment_no_replies by blast
next
  assume "has_replies raw \<and> parseComment raw depth = Inr c"
  then obtain cs rs where "reply_children raw = JArr cs"
    "map (\<lambda>x. parseComment x (depth + 1)) (filter is_t1 cs) = map Inr rs"
    "comment_replies c = Some rs"
    using parseComment_with_replies by blast
  moreover from this have "length rs = length (filter is_t1 cs)"
    by (metis length_map)
  ultimately show "\<exists>cs rs. reply_children raw = JArr cs \<and> comment_replies c = Some rs
                   \<and> length rs = length (filter is_t1 cs)"
    by blast
qed

theorem parseComment_replies_field_witness:
  "(\<exists>c. parseComment ex_plain 0 = Inr c \<and> comment_replies c = None)
   \<and> has_replies ex_leaf
   \<and> parseComment ex_leaf 1 =
       Inr (Comment (JStr ''c2'') (JStr ''second'') (JStr ''bob'') (JNum 1707523300)
              (JNum 7) (JNum 7) 1 (Some []))
   \<and> (\<exists>cs rs. reply_children ex_leaf = JArr cs \<and> Some [] = Some rs
                   \<and> length rs = length (filter is_t1 cs))"
proof -
  have a: "\<not> nullish ex_plain \<and> \<not> nullish (field ex_plain ''data'') \<and> \<not> has_replies ex_plain"
    by code_simp
  have b: "has_replies ex_leaf" by code_simp
  have c: "parseComment ex_leaf 1 =
       Inr (Comment (JStr ''c2'') (JStr ''second'') (JStr ''bob'') (JNum 1707523300)
              (JNum 7) (JNum 7) 1 (Some []))" by code_simp
  from a b c
    parseComment_replies_field [of ex_plain 0]
    parseComment_replies_field [of ex_leaf 1 "Comment (JStr ''c2'') (JStr ''second'')
              (JStr ''bob'') (JNum 1707523300) (JNum 7) (JNum 7) 1 (Some [])"]
  show ?thesis by simp
qed

text \<open>
  C5.  For every raw comment node with a replies listing, \<^verbatim>\<open>parseComment\<close> drops every
  child whose kind is not \<^verbatim>\<open>t1\<close> (the "load more" placeholders) and maps the remaining
  children, in order, at \<open>depth + 1\<close>: the replies are exactly the results for the
  \<^verbatim>\<open>t1\<close> children, so no comment is produced for a placeholder.
\<close>

theorem parseComment_maps_t1_children:
  assumes "parseComment raw depth = Inr c" and "has_replies raw"
  shows "\<exists>cs rs. reply_children raw = JArr cs \<and> comment_replies c = Some rs
           \<and> map (\<lambda>x. parseComment x (depth + 1)) (filter is_t1 cs) = map Inr rs
           \<and> list_all (\<lambda>r. comment_depth r = depth + 1) rs"
proof -
  from assms obtain cs rs where
    cs: "reply_children raw = JArr cs" "comment_replies c = Some rs"
    and rs: "map (\<lambda>x. parseComment x (depth + 1)) (filter is_t1 cs) = map Inr rs"
    using parseComment_with_replies by blast
  have "comment_depth r = depth + 1" if "r \<in> set rs" for r
    using map_eq_Inr_elem [OF rs that] parseComment_depth_nested by blast
  then have "list_all (\<lambda>r. comment_depth r = depth + 1) rs"
    by (simp add: list_all_iff)
  with cs rs show ?thesis by blast
qed

text \<open>
  The payload three levels deep with a placeholder at the deepest level: the result
  has comments at depths 0 and 1 only.
\<close>

theorem parseComment_maps_t1_children_witness:
  "parseComment ex_root 0 =
     Inr (Comment (JStr ''c1'') (JStr ''first'') (JStr ''alice'') (JNum 1707523200)
            (JNum 50) (JNum 50) 0
            (Some [Comment (JStr ''c2'') (JStr ''second'') (JStr ''bob'') (JNum 1707523300)
                     (JNum 7) (JNum 7) 1 (Some [])]))
   \<and> has_replies ex_root
   \<and> comment_depths (Comment (JStr ''c1'') (JStr ''first'') (JStr ''alice'') (JNum 1707523200)
            (JNum 50) (JNum 50) 0
            (Some [Comment (JStr ''c2'') (JStr ''second'') (JStr ''bob'') (JNum 1707523300)
                     (JNum 7) (JNum 7) 1 (Some [])])) = [0, 1]
   \<and> (\<exists>cs rs. reply_children ex_root = JArr cs
          \<and> Some [Comment (JStr ''c2'') (JStr ''second'') (JStr ''bob'') (JNum 1707523300)
                     (JNum 7) (JNum 7) 1 (Some [])] = Some rs
          \<and> map (\<lambda>x. parseComment x (0 + 1)) (filter is_t1 cs) = map Inr rs
          \<and> list_all (\<lambda>r. comment_depth r = 0 + 1) rs)"
proof -
  have a: "parseComment ex_root 0 =
     Inr (Comment (JStr ''c1'') (JStr ''first'') (JStr ''alice'') (JNum 1707523200)
            (JNum 50) (JNum 50) 0
            (Some [Comment (JStr ''c2'') (JStr ''second'') (JStr ''bob'') (JNum 1707523300)
                     (JNum 7) (JNum 7) 1 (Some [])]))"
    by code_simp
  have b: "has_replies ex_root" by code_simp
  have c: "comment_depths (Comment (JStr ''c1'') (JStr ''first'') (JStr ''alice'') (JNum 1707523200)
            (JNum 50) (JNum 50) 0
            (Some [Comment (JStr ''c2'') (JStr ''second'') (JStr ''bob'') (JNum 1707523300)
                     (JNum 7) (JNum 7) 1 (Some [])])) = [0, 1]"
    by simp
  from parseComment_maps_t1_children [OF a b] a b c show ?thesis by simp
qed

section \<open>Post mapping: the two shapes\<close>




section \<open>Engagement filter and cache\<close>

lemma parseInt_zero: "parseInt ''0'' = Some 0"
  by code_simp

text \<open>
  C10.  A threshold of 0 is treated by \<^verbatim>\<open>filterEngagement\<close> as if it were not supplied:
  with \<^verbatim>\<open>minUpvotes\<close> (or \<^verbatim>\<open>minComments\<close>) 0 the result is the one without that
  threshold, and the list itself when no other threshold is given, so posts with 0
  upvotes stay.  The search command passes the posts on unchanged when
  \<^verbatim>\<open>--min-upvotes 0\<close> is given.
\<close>

theorem filterEngagement_zero_threshold:
  "filterEngagement posts \<lparr>minUpvotes = Some 0, minComments = mc\<rparr>
     = filterEngagement posts \<lparr>minUpvotes = None, minComments = mc\<rparr>
   \<and> filterEngagement posts \<lparr>minUpvotes = mu, minComments = Some 0\<rparr>
     = filterEngagement posts \<lparr>minUpvotes = mu, minComments = None\<rparr>
   \<and> filterEngagement posts \<lparr>minUpvotes = Some 0, minComments = None\<rparr> = posts
   \<and> filterEngagement posts \<lparr>minUpvotes = None, minComments = Some 0\<rparr> = posts
   \<and> filterEngagement posts \<lparr>minUpvotes = Some 0, minComments = Some 0\<rparr> = posts
   \<and> (getOpt args ''min-upvotes'' = Some ''0'' \<longrightarrow> search_apply_filters args posts = posts)"
  by (simp add: filterEngagement_def search_apply_filters_def search_minUpvotes_def parseInt_zero)

theorem filterEngagement_zero_threshold_witness:
  "getOpt [''search'', ''rust'', ''--min-upvotes'', ''0''] ''min-upvotes'' = Some ''0''
   \<and> search_apply_filters [''search'', ''rust'', ''--min-upvotes'', ''0'']
        [\<lparr>post_id = JStr ''abc'', title = JStr ''Hello'', selftext = JStr '''',
          author = JStr ''[deleted]'', subreddit = JStr ''test'', created_utc = JNum 1707523200,
          url = JStr '''', permalink = JStr ''/r/test/comments/abc/hello/'',
          upvotes = JNum 0, num_comments = JNum 0, score = JNum 0, over_18 = JBool False,
          post_url = JStr ''https://reddit.com/r/test/comments/abc/hello/''\<rparr>]
     = [\<lparr>post_id = JStr ''abc'', title = JStr ''Hello'', selftext = JStr '''',
          author = JStr ''[deleted]'', subreddit = JStr ''test'', created_utc = JNum 1707523200,
          url = JStr '''', permalink = JStr ''/r/test/comments/abc/hello/'',
          upvotes = JNum 0, num_comments = JNum 0, score = JNum 0, over_18 = JBool False,
          post_url = JStr ''https://reddit.com/r/test/comments/abc/hello/''\<rparr>]"
proof -
  have "getOpt [''search'', ''rust'', ''--min-upvotes'', ''0''] ''min-upvotes'' = Some ''0''"
    by (simp add: getOpt_def)
  with filterEngagement_zero_threshold [of _ _ _ "[''search'', ''rust'', ''--min-upvotes'', ''0'']"]
  show ?thesis by blast
qed

text \<open>
  C7.  A value stored at time \<open>T\<close> is returned by a lookup at time \<open>T'\<close> when
  \<open>T' - T\<close> is within the time to live given at the lookup, and the lookup answers
  "absent" when \<open>T' - T\<close> exceeds it or when nothing was stored under the key.
\<close>

theorem cache_get_within_ttl:
  "(T' - T \<le> ttl \<longrightarrow> cache_get (cache_set store key v T) key ttl T' = Some v)
   \<and> (T' - T > ttl \<longrightarrow> cache_get (cache_set store key v T) key ttl T' = None)
   \<and> (map_of store key = None \<longrightarrow> cache_get store key ttl T' = None)"
  by (simp add: cache_get_def cache_set_def)

text \<open>
  With the time to live of a search that is not in quick mode, 900000 ms: stored at
  \<open>T\<close>, present at \<open>T + 800000\<close>, absent at \<open>T + 1000000\<close>.
\<close>

theorem cache_get_within_ttl_witness:
  "search_ttl [''search'', ''rust''] = 900000
   \<and> cache_get (cache_set [] ''search:rust:all:relevance:week:15'' [JStr ''abc''] 1707523200000)
        ''search:rust:all:relevance:week:15'' 900000 (1707523200000 + 800000) = Some [JStr ''abc'']
   \<and> cache_get (cache_set [] ''search:rust:all:relevance:week:15'' [JStr ''abc''] 1707523200000)
        ''search:rust:all:relevance:week:15'' 900000 (1707523200000 + 1000000) = None
   \<and> cache_get ([] :: json list cache_store) ''search:rust:all:relevance:week:15''
        900000 (1707523200000 + 800000) = None"
proof -
  have t: "search_ttl [''search'', ''rust''] = 900000"
    by (simp add: search_ttl_def getFlag_def)
  from t
    cache_get_within_ttl [of "1707523200000 + 800000" 1707523200000 900000 "[]"
       "''search:rust:all:relevance:week:15''" "[JStr ''abc'']"]
    cache_get_within_ttl [of "1707523200000 + 1000000" 1707523200000 900000 "[]"
       "''search:rust:all:relevance:week:15''" "[JStr ''abc'']"]
  show ?thesis by simp
qed

section \<open>Unwrapping a thread response\<close>

lemma field_JArr_defined: "field j k = JArr xs \<Longrightarrow> \<not> nullish j \<and> \<not> nullish (field j k)"
  by (cases j) auto

lemma thread_unwrap_pair:
  assumes "field (field l0 ''data'') ''children'' = JArr (p # ps)"
    and "field (field l1 ''data'') ''children'' = JArr cs"
  shows "thread_unwrap (JArr [l0, l1]) =
           (case parsePost p of
              Inl e \<Rightarrow> Inl e
            | Inr post \<Rightarrow>
                if list_ex nullish cs then Inl TypeError
                else (case sequence_err (map (\<lambda>c. parseComment c 0) (filter is_t1 cs)) of
                        Inl e \<Rightarrow> Inl e
                      | Inr comments \<Rightarrow> Inr (post, comments)))"
proof -
  from assms(1) have a: "\<not> nullish (field l0 ''data'')"
    using field_JArr_defined by blast
  then have a': "\<not> nullish l0" by (cases l0) auto
  from assms(2) have b: "\<not> nullish (field l1 ''data'')"
    using field_JArr_defined by blast
  then have b': "\<not> nullish l1" by (cases l1) auto
  from a a' b b' assms show ?thesis
    by (simp add: thread_unwrap_def Let_def js_or_def split: sum.splits)
qed

lemma thread_unwrap_Inr:
  assumes "thread_unwrap data = Inr (post, comments)"
  shows "\<exists>cs. map (\<lambda>c. parseComment c 0) (filter is_t1 cs) = map Inr comments"
  using assms
  by (auto simp: thread_unwrap_def Let_def sequence_err_Inr_iff
           split: if_splits sum.splits json.splits)

lemma ex_apiGet:
  "apiGet ex_env (thread_endpoint ''test'' ''abc'' ex_opts) ex_world
     = (Inr (JArr [ex_listing [ex_post], ex_listing [ex_root, ex_more, ex_plain]]),
        ex_world_after)"
  by code_simp

lemma ex_children:
  "field (field (ex_listing cs) ''data'') ''children'' = JArr cs"
  by (simp add: ex_listing_def)

text \<open>
  C4.  When the response is a two-element array of listings, \<^verbatim>\<open>thread\<close> returns a post
  and comments exactly when the post is the first child of the first listing mapped by
  \<^verbatim>\<open>parsePost\<close> and the comments are the children of the second listing whose kind is
  \<^verbatim>\<open>t1\<close>, each mapped by \<^verbatim>\<open>parseComment\<close> at depth 0, in order; there is one comment
  per \<^verbatim>\<open>t1\<close> child and each has depth 0.
\<close>

theorem thread_unwraps_listings:
  assumes "apiGet env (thread_endpoint sr postId opts) w = (Inr (JArr [l0, l1]), w')"
    and "field (field l0 ''data'') ''children'' = JArr (p # ps)"
    and "field (field l1 ''data'') ''children'' = JArr cs"
  shows "(thread env sr postId opts w = (Inr (post, comments), w')
           \<longleftrightarrow> parsePost p = Inr post \<and> \<not> list_ex nullish cs
               \<and> map (\<lambda>c. parseComment c 0) (filter is_t1 cs) = map Inr comments)
         \<and> (thread env sr postId opts w = (Inr (post, comments), w')
              \<longrightarrow> length comments = length (filter is_t1 cs)
                  \<and> list_all (\<lambda>c. comment_depth c = 0) comments)"
proof -
  have t: "thread env sr postId opts w = (thread_unwrap (JArr [l0, l1]), w')"
    using assms(1) by (simp add: thread_def)
  have iff: "thread env sr postId opts w = (Inr (post, comments), w')
           \<longleftrightarrow> parsePost p = Inr post \<and> \<not> list_ex nullish cs
               \<and> map (\<lambda>c. parseComment c 0) (filter is_t1 cs) = map Inr comments"
    unfolding t thread_unwrap_pair [OF assms(2,3)]
    by (auto simp: sequence_err_Inr_iff sequence_err_map_Inr split: sum.splits)
  have "length comments = length (filter is_t1 cs) \<and> list_all (\<lambda>c. comment_depth c = 0) comments"
    if m: "map (\<lambda>c. parseComment c 0) (filter is_t1 cs) = map Inr comments"
  proof -
    have "comment_depth r = 0" if "r \<in> set comments" for r
      using map_eq_Inr_elem [OF m that] parseComment_depth_nested by blast
    then have "list_all (\<lambda>c. comment_depth c = 0) comments"
      by (simp add: list_all_iff)
    moreover from m have "length comments = length (filter is_t1 cs)"
      by (metis length_map)
    ultimately show ?thesis by simp
  qed
  with iff show ?thesis by blast
qed

text \<open>
  Element 0 with one child, element 1 with two \<^verbatim>\<open>t1\<close> children and a placeholder: one
  post and exactly two comments, at depth 0.
\<close>

theorem thread_unwraps_listings_witness:
  "apiGet ex_env (thread_endpoint ''test'' ''abc'' ex_opts) ex_world
     = (Inr (JArr [ex_listing [ex_post], ex_listing [ex_root, ex_more, ex_plain]]),
        ex_world_after)
   \<and> filter is_t1 [ex_root, ex_more, ex_plain] = [ex_root, ex_plain]
   \<and> (\<exists>post c1 c2.
         thread ex_env ''test'' ''abc'' ex_opts ex_world = (Inr (post, [c1, c2]), ex_world_after)
         \<and> parsePost ex_post = Inr post
         \<and> parseComment ex_root 0 = Inr c1 \<and> parseComment ex_plain 0 = Inr c2
         \<and> comment_depth c1 = 0 \<and> comment_depth c2 = 0)"
proof -
  have f: "filter is_t1 [ex_root, ex_more, ex_plain] = [ex_root, ex_plain]"
    by code_simp
  have n: "\<not> list_ex nullish [ex_root, ex_more, ex_plain]"
    by code_simp
  have "\<not> nullish ex_post" by code_simp
  then obtain post where post: "parsePost ex_post = Inr post"
    by (auto simp: parsePost_def Let_def)
  have "parseComment ex_root 0 =
     Inr (Comment (JStr ''c1'') (JStr ''first'') (JStr ''alice'') (JNum 1707523200)
            (JNum 50) (JNum 50) 0
            (Some [Comment (JStr ''c2'') (JStr ''second'') (JStr ''bob'') (JNum 1707523300)
                     (JNum 7) (JNum 7) 1 (Some [])]))"
    by code_simp
  then obtain c1 where c1: "parseComment ex_root 0 = Inr c1"
    by blast
  have "\<not> nullish ex_plain \<and> \<not> nullish (field ex_plain ''data'') \<and> \<not> has_replies ex_plain"
    by code_simp
  then obtain c2 where c2: "parseComment ex_plain 0 = Inr c2"
    using parseComment_no_replies by blast
  from f c1 c2
  have m: "map (\<lambda>c. parseComment c 0) (filter is_t1 [ex_root, ex_more, ex_plain]) = map Inr [c1, c2]"
    by simp
  note inst = thread_unwraps_listings [OF ex_apiGet ex_children ex_children, of post "[c1, c2]"]
  from inst post n m
  have "thread ex_env ''test'' ''abc'' ex_opts ex_world = (Inr (post, [c1, c2]), ex_world_after)"
    by blast
  with inst have "list_all (\<lambda>c. comment_depth c = 0) [c1, c2]" by blast
  with \<open>thread ex_env ''test'' ''abc'' ex_opts ex_world = (Inr (post, [c1, c2]), ex_world_after)\<close>
    ex_apiGet f post c1 c2
  show ?thesis by auto
qed

text \<open>
  C8.  In every comment forest \<^verbatim>\<open>thread\<close> returns, each top-level comment has depth 0 and,
  throughout each tree, the depth of a reply is the depth of its parent plus 1.
\<close>

theorem thread_forest_depths:
  assumes "thread env sr postId opts w = (Inr (post, comments), w')"
  shows "list_all (\<lambda>c. comment_depth c = 0 \<and> nested_by_one c) comments"
proof -
  from assms obtain data where "thread_unwrap data = Inr (post, comments)"
    by (auto simp: thread_def split: prod.splits sum.splits)
  then obtain cs where m: "map (\<lambda>c. parseComment c 0) (filter is_t1 cs) = map Inr comments"
    using thread_unwrap_Inr by blast
  have "comment_depth r = 0 \<and> nested_by_one r" if "r \<in> set comments" for r
    using map_eq_Inr_elem [OF m that] parseComment_depth_nested by blast
  then show ?thesis by (simp add: list_all_iff)
qed

theorem thread_forest_depths_witness:
  "thread ex_env ''test'' ''abc'' ex_opts ex_world =
     (Inr (\<lparr> post_id = JStr ''abc'', title = JStr ''Hello'', selftext = JStr '''',
             author = JStr ''[deleted]'', subreddit = JStr ''test'', created_utc = JUndefined,
             url = JStr '''', permalink = JStr ''/r/test/comments/abc/hello/'',
             upvotes = JNum 0, num_comments = JNum 0, score = JNum 0, over_18 = JBool False,
             post_url = JStr ''https://reddit.com/r/test/comments/abc/hello/'' \<rparr>,
           [Comment (JStr ''c1'') (JStr ''first'') (JStr ''alice'') (JNum 1707523200)
              (JNum 50) (JNum 50) 0
              (Some [Comment (JStr ''c2'') (JStr ''second'') (JStr ''bob'') (JNum 1707523300)
                       (JNum 7) (JNum 7) 1 (Some [])]),
            Comment (JStr ''c3'') (JStr ''third'') (JStr ''[deleted]'') JUndefined
              (JNum 0) (JNum 0) 0 None]),
      ex_world_after)
   \<and> list_all (\<lambda>c. comment_depth c = 0 \<and> nested_by_one c)
        [Comment (JStr ''c1'') (JStr ''first'') (JStr ''alice'') (JNum 1707523200)
              (JNum 50) (JNum 50) 0
              (Some [Comment (JStr ''c2'') (JStr ''second'') (JStr ''bob'') (JNum 1707523300)
                       (JNum 7) (JNum 7) 1 (Some [])]),
            Comment (JStr ''c3'') (JStr ''third'') (JStr ''[deleted]'') JUndefined
              (JNum 0) (JNum 0) 0 None]"
proof -
  have r: "thread ex_env ''test'' ''abc'' ex_opts ex_world =
     (Inr (\<lparr> post_id = JStr ''abc'', title = JStr ''Hello'', selftext = JStr '''',
             author = JStr ''[deleted]'', subreddit = JStr ''test'', created_utc = JUndefined,
             url = JStr '''', permalink = JStr ''/r/test/comments/abc/hello/'',
             upvotes = JNum 0, num_comments = JNum 0, score = JNum 0, over_18 = JBool False,
             post_url = JStr ''https://reddit.com/r/test/comments/abc/hello/'' \<rparr>,
           [Comment (JStr ''c1'') (JStr ''first'') (JStr ''alice'') (JNum 1707523200)
              (JNum 50) (JNum 50) 0
              (Some [Comment (JStr ''c2'') (JStr ''second'') (JStr ''bob'') (JNum 1707523300)
                       (JNum 7) (JNum 7) 1 (Some [])]),
            Comment (JStr ''c3'') (JStr ''third'') (JStr ''[deleted]'') JUndefined
              (JNum 0) (JNum 0) 0 None]),
      ex_world_after)"
    by code_simp
  from thread_forest_depths [OF r] r show ?thesis by blast
qed

section \<open>Token reuse\<close>

lemma auth_calls_append: "auth_calls (xs @ ys) = auth_calls xs + auth_calls ys"
  by (induction xs rule: auth_calls.induct) auto

lemma cached_token_None_iff:
  "cached_token w = None \<longleftrightarrow>
     \<not> (\<exists>t. accessToken w = Some t \<and> t \<noteq> [] \<and> now w < tokenExpiry w - 5 * 60 * 1000)"
  by (auto simp: cached_token_def split: option.splits)

lemma cached_token_Some_iff:
  "cached_token w = Some t \<longleftrightarrow>
     accessToken w = Some t \<and> t \<noteq> [] \<and> now w < tokenExpiry w - 5 * 60 * 1000"
  by (auto simp: cached_token_def split: option.splits)

lemma getToken_cached: "cached_token w = Some t \<Longrightarrow> getToken env w = (Inr t, w)"
  by (simp add: getToken_def)

lemma getToken_fresh:
  assumes "cached_token w = None" "getToken env w = (Inr t, w1)"
  shows "accessToken w1 = Some t \<and> (\<exists>creds. trace w1 = trace w @ [AuthPost (now w) creds])"
  using assms
  by (auto simp: getToken_def Let_def split: sum.splits list.splits if_splits option.splits)

text \<open>
  C3.  If a cached token exists (the variable holds a non-empty string) and the current
  time is earlier than the cached expiry minus five minutes, \<^verbatim>\<open>getToken\<close> returns the
  cached token and leaves the world as it is: no authorization request is made.
  Otherwise, with credentials present and a successful reply, it performs one
  password-grant exchange and caches the new token with expiry (the time of the reply)
  + \<^verbatim>\<open>expires_in\<close> seconds.  Two calls, the second within the validity window minus the
  margin, make exactly one authorization request.
\<close>

theorem getToken_reuses_cached_token:
  "(accessToken w = Some t \<and> t \<noteq> [] \<and> now w < tokenExpiry w - 5 * 60 * 1000
      \<longrightarrow> getToken env w = (Inr t, w))
   \<and> (\<not> (\<exists>t. accessToken w = Some t \<and> t \<noteq> [] \<and> now w < tokenExpiry w - 5 * 60 * 1000)
       \<and> getCredentials env = Inr creds \<and> auth_replies w = r # rs
       \<and> auth_ok r \<and> auth_json r = Some data
      \<longrightarrow> getToken env w =
            (Inr (access_token data),
             w\<lparr> auth_replies := rs, trace := trace w @ [AuthPost (now w) creds],
                now := now w + int (auth_latency r),
                accessToken := Some (access_token data),
                tokenExpiry := now w + int (auth_latency r) + expires_in data * 1000 \<rparr>))
   \<and> (\<not> (\<exists>t. accessToken w = Some t \<and> t \<noteq> [] \<and> now w < tokenExpiry w - 5 * 60 * 1000)
       \<and> getToken env w = (Inr t, w1) \<and> t \<noteq> []
       \<and> now w1 + \<delta> < tokenExpiry w1 - 5 * 60 * 1000
      \<longrightarrow> getToken env (w1\<lparr>now := now w1 + \<delta>\<rparr>) = (Inr t, w1\<lparr>now := now w1 + \<delta>\<rparr>)
          \<and> auth_calls (trace (snd (getToken env (w1\<lparr>now := now w1 + \<delta>\<rparr>))))
              = auth_calls (trace w) + 1)"
proof -
  have p1: "accessToken w = Some t \<and> t \<noteq> [] \<and> now w < tokenExpiry w - 5 * 60 * 1000
      \<longrightarrow> getToken env w = (Inr t, w)"
    using getToken_cached cached_token_Some_iff by blast
  have p2: "\<not> (\<exists>t. accessToken w = Some t \<and> t \<noteq> [] \<and> now w < tokenExpiry w - 5 * 60 * 1000)
       \<and> getCredentials env = Inr creds \<and> auth_replies w = r # rs
       \<and> auth_ok r \<and> auth_json r = Some data
      \<longrightarrow> getToken env w =
            (Inr (access_token data),
             w\<lparr> auth_replies := rs, trace := trace w @ [AuthPost (now w) creds],
                now := now w + int (auth_latency r),
                accessToken := Some (access_token data),
                tokenExpiry := now w + int (auth_latency r) + expires_in data * 1000 \<rparr>)"
  proof
    assume a: "\<not> (\<exists>t. accessToken w = Some t \<and> t \<noteq> [] \<and> now w < tokenExpiry w - 5 * 60 * 1000)
       \<and> getCredentials env = Inr creds \<and> auth_replies w = r # rs
       \<and> auth_ok r \<and> auth_json r = Some data"
    then have "cached_token w = None"
      using cached_token_None_iff by blast
    with a show "getToken env w =
            (Inr (access_token data),
             w\<lparr> auth_replies := rs, trace := trace w @ [AuthPost (now w) creds],
                now := now w + int (auth_latency r),
                accessToken := Some (access_token data),
                tokenExpiry := now w + int (auth_latency r) + expires_in data * 1000 \<rparr>)"
      by (simp add: getToken_def Let_def)
  qed
  have p3: "\<not> (\<exists>t. accessToken w = Some t \<and> t \<noteq> [] \<and> now w < tokenExpiry w - 5 * 60 * 1000)
       \<and> getToken env w = (Inr t, w1) \<and> t \<noteq> []
       \<and> now w1 + \<delta> < tokenExpiry w1 - 5 * 60 * 1000
      \<longrightarrow> getToken env (w1\<lparr>now := now w1 + \<delta>\<rparr>) = (Inr t, w1\<lparr>now := now w1 + \<delta>\<rparr>)
          \<and> auth_calls (trace (snd (getToken env (w1\<lparr>now := now w1 + \<delta>\<rparr>))))
              = auth_calls (trace w) + 1"
  proof
    assume a: "\<not> (\<exists>t. accessToken w = Some t \<and> t \<noteq> [] \<and> now w < tokenExpiry w - 5 * 60 * 1000)
       \<and> getToken env w = (Inr t, w1) \<and> t \<noteq> []
       \<and> now w1 + \<delta> < tokenExpiry w1 - 5 * 60 * 1000"
    then have none: "cached_token w = None"
      using cached_token_None_iff by blast
    from a have g: "getToken env w = (Inr t, w1)" by simp
    from getToken_fresh [OF none g] obtain creds where
      w1: "accessToken w1 = Some t" "trace w1 = trace w @ [AuthPost (now w) creds]"
      by blast
    from w1(1) a have "cached_token (w1\<lparr>now := now w1 + \<delta>\<rparr>) = Some t"
      by (simp add: cached_token_Some_iff)
    then have again:
      "getToken env (w1\<lparr>now := now w1 + \<delta>\<rparr>) = (Inr t, w1\<lparr>now := now w1 + \<delta>\<rparr>)"
      by (rule getToken_cached)
    from w1(2) have "auth_calls (trace w1) = auth_calls (trace w) + 1"
      by (simp add: auth_calls_append)
    with again
    show "getToken env (w1\<lparr>now := now w1 + \<delta>\<rparr>) = (Inr t, w1\<lparr>now := now w1 + \<delta>\<rparr>)
          \<and> auth_calls (trace (snd (getToken env (w1\<lparr>now := now w1 + \<delta>\<rparr>))))
              = auth_calls (trace w) + 1"
      by simp
  qed
  from p1 p2 p3 show ?thesis by blast
qed

text \<open>
  In the example: a call with a valid cached token, a first call of a fresh process,
  and a second call 1000 s later.
\<close>

theorem getToken_reuses_cached_token_witness:
  "getToken ex_env ex_world_after = (Inr ''tok1'', ex_world_after)
   \<and> getToken ex_env ex_world = (Inr ''tok1'', ex_world_token)
   \<and> tokenExpiry ex_world_token = now ex_world_token + 3600 * 1000
   \<and> getToken ex_env (ex_world_token\<lparr>now := now ex_world_token + 1000000\<rparr>)
       = (Inr ''tok1'', ex_world_token\<lparr>now := now ex_world_token + 1000000\<rparr>)
   \<and> auth_calls (trace ex_world) = 0
   \<and> auth_calls (trace (snd (getToken ex_env (ex_world_token\<lparr>now := now ex_world_token + 1000000\<rparr>)))) = 1"
proof -
  have a: "accessToken ex_world_after = Some ''tok1'' \<and> ''tok1'' \<noteq> []
           \<and> now ex_world_after < tokenExpiry ex_world_after - 5 * 60 * 1000"
    by (simp add: ex_world_after_def)
  have b: "\<not> (\<exists>t. accessToken ex_world = Some t \<and> t \<noteq> []
                  \<and> now ex_world < tokenExpiry ex_world - 5 * 60 * 1000)"
    by (simp add: ex_world_def)
  have c: "getCredentials ex_env =
             Inr \<lparr> clientId = ''client'', clientSecret = ''secret'',
                   username = ''alice'', password = ''hunter2'' \<rparr>"
    by (simp add: getCredentials_def ex_env_def)
  have d: "auth_replies ex_world = ex_token_reply # []" "auth_ok ex_token_reply"
    "auth_json ex_token_reply = Some \<lparr> access_token = ''tok1'', token_type = ''bearer'',
                          expires_in = 3600, scope = ''*'' \<rparr>"
    by (simp_all add: ex_world_def ex_token_reply_def)
  have e: "ex_world\<lparr> auth_replies := [],
                trace := trace ex_world @ [AuthPost (now ex_world)
                            \<lparr> clientId = ''client'', clientSecret = ''secret'',
                              username = ''alice'', password = ''hunter2'' \<rparr>],
                now := now ex_world + int (auth_latency ex_token_reply),
                accessToken := Some ''tok1'',
                tokenExpiry := now ex_world + int (auth_latency ex_token_reply) + 3600 * 1000 \<rparr>
           = ex_world_token"
    by (simp add: ex_world_token_def ex_world_def ex_token_reply_def)
  have f: "now ex_world_token + 1000000 < tokenExpiry ex_world_token - 5 * 60 * 1000"
    "tokenExpiry ex_world_token = now ex_world_token + 3600 * 1000"
    "auth_calls (trace ex_world) = 0"
    by (simp_all add: ex_world_token_def ex_world_def)
  note i1 = getToken_reuses_cached_token [of ex_world_after "''tok1''" ex_env]
  note i2 = getToken_reuses_cached_token [of ex_world _ ex_env
      "\<lparr> clientId = ''client'', clientSecret = ''secret'',
                   username = ''alice'', password = ''hunter2'' \<rparr>" ex_token_reply "[]"
      "\<lparr> access_token = ''tok1'', token_type = ''bearer'', expires_in = 3600, scope = ''*'' \<rparr>"]
  from i1 a have g1: "getToken ex_env ex_world_after = (Inr ''tok1'', ex_world_after)"
    by blast
  from i2 b c d have "getToken ex_env ex_world = (Inr ''tok1'',
      ex_world\<lparr> auth_replies := [],
                trace := trace ex_world @ [AuthPost (now ex_world)
                            \<lparr> clientId = ''client'', clientSecret = ''secret'',
                              username = ''alice'', password = ''hunter2'' \<rparr>],
                now := now ex_world + int (auth_latency ex_token_reply),
                accessToken := Some ''tok1'',
                tokenExpiry := now ex_world + int (auth_latency ex_token_reply) + 3600 * 1000 \<rparr>)"
    by simp
  with e have g2: "getToken ex_env ex_world = (Inr ''tok1'', ex_world_token)"
    by simp
  have h3: "\<not> (\<exists>t. accessToken ex_world = Some t \<and> t \<noteq> []
                  \<and> now ex_world < tokenExpiry ex_world - 5 * 60 * 1000)
       \<and> getToken ex_env ex_world = (Inr ''tok1'', ex_world_token) \<and> ''tok1'' \<noteq> []
       \<and> now ex_world_token + 1000000 < tokenExpiry ex_world_token - 5 * 60 * 1000"
    using b g2 f(1) by simp
  note i3 = getToken_reuses_cached_token [of ex_world "''tok1''" ex_env _ _ _ _ ex_world_token
      1000000, THEN conjunct2, THEN conjunct2, THEN mp, OF h3]
  have g3: "getToken ex_env (ex_world_token\<lparr>now := now ex_world_token + 1000000\<rparr>)
       = (Inr ''tok1'', ex_world_token\<lparr>now := now ex_world_token + 1000000\<rparr>)
     \<and> auth_calls (trace (snd (getToken ex_env (ex_world_token\<lparr>now := now ex_world_token + 1000000\<rparr>))))
              = auth_calls (trace ex_world) + 1"
    by (rule i3)
  from g3 f(3) have g4: "auth_calls (trace (snd (getToken ex_env
      (ex_world_token\<lparr>now := now ex_world_token + 1000000\<rparr>)))) = 1"
    by linarith
  from g1 g2 f(2) g3 [THEN conjunct1] f(3) g4 show ?thesis
    by (intro conjI)
qed

section \<open>Pacing of data requests\<close>

lemma api_times_append: "api_times (xs @ ys) = api_times xs @ api_times ys"
  by (induction xs rule: api_times.induct) auto

lemma spaced_snoc:
  "spaced ts \<Longrightarrow> list_all (\<lambda>t'. t' + int RATE_DELAY_MS \<le> t) ts \<Longrightarrow> spaced (ts @ [t])"
  by (induction ts rule: spaced.induct) auto

lemma getToken_keeps_pace:
  assumes "getToken env w = (res, w1)"
  shows "api_times (trace w1) = api_times (trace w) \<and> now w \<le> now w1
         \<and> api_replies w1 = api_replies w \<and> timer_lags w1 = timer_lags w"
  using assms
  by (auto simp: getToken_def Let_def api_times_append
           split: option.splits sum.splits list.splits if_splits)

lemma apiGet_ok:
  assumes "getToken env w = (Inr token, w1)" "api_replies w1 = r # rs" "api_ok r"
  shows "snd (apiGet env endpoint w) =
           sleep RATE_DELAY_MS
             (w1\<lparr> api_replies := rs, trace := trace w1 @ [ApiGet (now w1) endpoint token],
                  now := now w1 + int (api_latency r) \<rparr>)"
  using assms by (simp add: apiGet_def Let_def split: option.splits)

lemma spaced_append_later:
  "spaced ts \<Longrightarrow> list_all (\<lambda>t'. t' + int RATE_DELAY_MS \<le> t) ts \<Longrightarrow> t \<le> u
     \<Longrightarrow> spaced (ts @ [u])"
  by (rule spaced_snoc) (auto simp: list_all_iff)

lemma apiGet_api_times:
  "api_times (trace (snd (apiGet env endpoint w))) = api_times (trace w)
   \<or> (\<exists>t. now w \<le> t \<and> api_times (trace (snd (apiGet env endpoint w))) = api_times (trace w) @ [t])"
proof (cases "getToken env w")
  case (Pair res w1)
  note k = getToken_keeps_pace [OF Pair]
  show ?thesis
  proof (cases res)
    case (Inl e)
    with Pair k show ?thesis by (simp add: apiGet_def)
  next
    case (Inr token)
    with Pair k have "api_times (trace (snd (apiGet env endpoint w))) = api_times (trace w) @ [now w1]"
      by (auto simp: apiGet_def Let_def sleep_def api_times_append
               split: list.splits option.splits)
    with k show ?thesis by blast
  qed
qed

text \<open>
  The success path.  When the response has a success status, \<^verbatim>\<open>apiGet\<close> executes the
  pacing delay of 600 ms after the response is received and before it returns: the
  clock is then at least 600 ms past the response, and requests that were paced so far
  still are.  From a paced world the next request is at least 600 ms after every
  earlier one.
\<close>

lemma apiGet_paces_after_success:
  "(getToken env w = (Inr token, w1) \<and> api_replies w1 = r # rs \<and> api_ok r
      \<longrightarrow> trace (snd (apiGet env endpoint w))
            = trace w1 @ [ApiGet (now w1) endpoint token,
                          Sleep (now w1 + int (api_latency r)) 600]
          \<and> now w1 + int (api_latency r) + 600 \<le> now (snd (apiGet env endpoint w))
          \<and> (paced w \<longrightarrow> paced (snd (apiGet env endpoint w))))
   \<and> (paced w \<longrightarrow> spaced (api_times (trace (snd (apiGet env endpoint w)))))"
proof -
  have p2: "paced w \<longrightarrow> spaced (api_times (trace (snd (apiGet env endpoint w))))"
  proof
    assume p: "paced w"
    then have sp: "spaced (api_times (trace w))"
      and al: "list_all (\<lambda>t. t + int RATE_DELAY_MS \<le> now w) (api_times (trace w))"
      by (simp_all add: paced_def)
    from apiGet_api_times [of env endpoint w]
    show "spaced (api_times (trace (snd (apiGet env endpoint w))))"
    proof
      assume "api_times (trace (snd (apiGet env endpoint w))) = api_times (trace w)"
      with sp show ?thesis by simp
    next
      assume "\<exists>t. now w \<le> t
        \<and> api_times (trace (snd (apiGet env endpoint w))) = api_times (trace w) @ [t]"
      then obtain t where t: "now w \<le> t"
        "api_times (trace (snd (apiGet env endpoint w))) = api_times (trace w) @ [t]"
        by blast
      from spaced_append_later [OF sp al t(1)] t(2) show ?thesis by simp
    qed
  qed
  have p1: "getToken env w = (Inr token, w1) \<and> api_replies w1 = r # rs \<and> api_ok r
      \<longrightarrow> trace (snd (apiGet env endpoint w))
            = trace w1 @ [ApiGet (now w1) endpoint token,
                          Sleep (now w1 + int (api_latency r)) 600]
          \<and> now w1 + int (api_latency r) + 600 \<le> now (snd (apiGet env endpoint w))
          \<and> (paced w \<longrightarrow> paced (snd (apiGet env endpoint w)))"
  proof
    assume a: "getToken env w = (Inr token, w1) \<and> api_replies w1 = r # rs \<and> api_ok r"
    then have g: "getToken env w = (Inr token, w1)" and rp: "api_replies w1 = r # rs"
      and ok: "api_ok r"
      by simp_all
    note s = apiGet_ok [OF g rp ok, of endpoint]
    have c1: "trace (snd (apiGet env endpoint w))
          = trace w1 @ [ApiGet (now w1) endpoint token, Sleep (now w1 + int (api_latency r)) 600]"
      unfolding s by (simp add: sleep_def RATE_DELAY_MS_def)
    have c2: "now w1 + int (api_latency r) + 600 \<le> now (snd (apiGet env endpoint w))"
      unfolding s by (simp add: sleep_def RATE_DELAY_MS_def)
    have c3: "paced (snd (apiGet env endpoint w))" if p: "paced w"
    proof -
      from getToken_keeps_pace [OF g]
      have k: "api_times (trace w1) = api_times (trace w)" "now w \<le> now w1"
        by simp_all
      from p have al: "list_all (\<lambda>t. t + int RATE_DELAY_MS \<le> now w) (api_times (trace w))"
        by (simp add: paced_def)
      from al k(2) have al1: "list_all (\<lambda>t. t + int RATE_DELAY_MS \<le> now w1) (api_times (trace w))"
        by (auto simp: list_all_iff)
      have al': "list_all (\<lambda>t. t + int RATE_DELAY_MS \<le> now (snd (apiGet env endpoint w)))
               (api_times (trace w) @ [now w1])"
        using al1 unfolding s by (auto simp: list_all_iff sleep_def RATE_DELAY_MS_def)
      have tr: "api_times (trace (snd (apiGet env endpoint w))) = api_times (trace w) @ [now w1]"
        unfolding s by (simp add: sleep_def api_times_append k(1))
      from p2 p have "spaced (api_times (trace (snd (apiGet env endpoint w))))" by blast
      with al' tr show ?thesis by (simp add: paced_def)
    qed
    from c1 c2 c3
    show "trace (snd (apiGet env endpoint w))
            = trace w1 @ [ApiGet (now w1) endpoint token,
                          Sleep (now w1 + int (api_latency r)) 600]
          \<and> now w1 + int (api_latency r) + 600 \<le> now (snd (apiGet env endpoint w))
          \<and> (paced w \<longrightarrow> paced (snd (apiGet env endpoint w)))"
      by blast
  qed
  from p1 p2 show ?thesis by blast
qed

lemma apiGet_paces_after_success_example:
  "getToken ex_env ex_world = (Inr ''tok1'', ex_world_token)
   \<and> paced ex_world
   \<and> trace (snd (apiGet ex_env (thread_endpoint ''test'' ''abc'' ex_opts) ex_world))
       = [AuthPost 1707523200000
            \<lparr> clientId = ''client'', clientSecret = ''secret'',
              username = ''alice'', password = ''hunter2'' \<rparr>,
          ApiGet 1707523200120
            ''/r/test/comments/abc?depth=5&limit=50&sort=confidence&raw_json=1'' ''tok1'',
          Sleep 1707523200200 600]
   \<and> 1707523200200 + 600 \<le> now (snd (apiGet ex_env (thread_endpoint ''test'' ''abc'' ex_opts) ex_world))
   \<and> paced (snd (apiGet ex_env (thread_endpoint ''test'' ''abc'' ex_opts) ex_world))
   \<and> spaced (api_times (trace (snd (apiGet ex_env (thread_endpoint ''test'' ''abc'' ex_opts) ex_world))))"
proof -
  have g1: "getToken ex_env ex_world = (Inr ''tok1'', ex_world_token)"
    by code_simp
  have r1: "api_replies ex_world_token =
              \<lparr> api_latency = 80, api_ok = True, api_status = 200, api_text = '''',
                api_json = Some ex_thread_response \<rparr> # []"
    by (simp add: ex_world_token_def ex_world_def)
  have ok: "api_ok \<lparr> api_latency = 80, api_ok = True, api_status = 200, api_text = '''',
                api_json = Some ex_thread_response \<rparr>"
    by simp
  have p: "paced ex_world"
    by (simp add: paced_def ex_world_def)
  have e: "thread_endpoint ''test'' ''abc'' ex_opts
             = ''/r/test/comments/abc?depth=5&limit=50&sort=confidence&raw_json=1''"
    by code_simp
  have t: "trace ex_world_token = [AuthPost 1707523200000
            \<lparr> clientId = ''client'', clientSecret = ''secret'',
              username = ''alice'', password = ''hunter2'' \<rparr>]"
    "now ex_world_token = 1707523200120"
    by (simp_all add: ex_world_token_def)
  note i1 = apiGet_paces_after_success [of ex_env ex_world "''tok1''" ex_world_token
      "\<lparr> api_latency = 80, api_ok = True, api_status = 200, api_text = '''',
         api_json = Some ex_thread_response \<rparr>" "[]"
      "thread_endpoint ''test'' ''abc'' ex_opts"]
  from i1 g1 r1 ok p e t show ?thesis by simp
qed

text \<open>
  C1.  Every data request issued through \<^verbatim>\<open>apiGet\<close> is to be followed by the pacing delay
  of 600 ms once its response is received, also when the response has a non-success
  status, so that consecutive requests are at least 600 ms apart (the constant is
  commented "600ms between requests").  The code misses this on the error path:
  \<^verbatim>\<open>apiGet\<close> raises on \<^verbatim>\<open>!response.ok\<close> before it reaches the delay.  In
  \<open>ex_world_limited\<close> the first request is answered with status 429 after 80 ms: the
  trace has no \<open>Sleep\<close> after the request and the clock stands at the arrival of the
  response.  The watchlist check catches the error and goes on to the next user, whose
  request is issued 80 ms after the first, so the two are not spaced.
\<close>

theorem apiGet_error_unpaced:
  "apiGet ex_env ''/user/alice/about'' ex_world_limited
     = (Inl (ApiError 429 ''Too Many Requests''), ex_world_limited_after)
   \<and> trace ex_world_limited_after
       = [AuthPost 1707523200000
            \<lparr> clientId = ''client'', clientSecret = ''secret'',
              username = ''alice'', password = ''hunter2'' \<rparr>,
          ApiGet 1707523200120 ''/user/alice/about'' ''tok1'']
   \<and> api_times (trace (snd (apiGet ex_env ''/user/bob/about'' ex_world_limited_after)))
       = [1707523200120, 1707523200200]
   \<and> \<not> spaced [1707523200120, 1707523200200]"
  by code_simp

end
